theory Spec2Isabelle
  imports Complex_Main "HOL-Library.Word"
begin

section \<open>The OpenH264 shim: data model\<close>

text \<open>
  The development follows \<^verbatim>\<open>native/openh264_shim.c\<close> and its header. A C \<^verbatim>\<open>int\<close> is an
  \<^typ>\<open>int\<close>, a \<^verbatim>\<open>uint8_t\<close> an 8-bit word, a pointer is \<open>None\<close> when it is \<^verbatim>\<open>NULL\<close> and
  \<open>Some\<close> of what it points to otherwise; a byte pointer points to the list of bytes
  that start at it. The engine behind \<^verbatim>\<open>ISVCEncoder*\<close> is a library outside the
  repository: what it answers is an argument of the model, and what the shim asks of
  it is kept in the engine object as a log of calls.

  The arithmetic the shim does on \<^verbatim>\<open>int\<close> variables is 32-bit two's complement: a
  sum or product outside the range wraps around (\<open>int32\<close> below), as it does on the
  targets the shim is built for. Reading an array past its end is undefined in C;
  \<open>frame_ok\<close> below says when a reply of the engine keeps the reads of the two
  summing loops inside the arrays, and a \<^verbatim>\<open>memcpy\<close> that leaves its arrays is recorded
  as a memory fault of the call.
\<close>

type_synonym u8 = "8 word"

text \<open>
  The range of a C \<^verbatim>\<open>int\<close> and the value a 32-bit \<^verbatim>\<open>int\<close> holds after a computation
  whose exact result is \<open>x\<close>.
\<close>

definition INT_MAX :: int where
  "INT_MAX = 2147483647"

definition INT_MIN :: int where
  "INT_MIN = - 2147483648"

definition int32 :: "int \<Rightarrow> int" where
  "int32 x = (x + 2147483648) mod 4294967296 - 2147483648"

text \<open>
  The conversion of an \<^verbatim>\<open>int\<close> to \<^verbatim>\<open>size_t\<close>, taken as 64 bits wide: a negative
  \<^verbatim>\<open>int\<close> becomes a size of more than \<open>2 ^ 63\<close> bytes.
\<close>

definition size_t :: "int \<Rightarrow> int" where
  "size_t n = n mod 18446744073709551616"

text \<open>
  The conversion \<^verbatim>\<open>(float)x\<close> of an \<^verbatim>\<open>int\<close>: a single-precision number has 24
  significant bits, so the low bits beyond them are rounded away, to the nearest
  value and to the even one at a tie. \<open>float_shift a\<close> is the number of bits that \<open>a\<close>
  has beyond 24.
\<close>

fun float_shift :: "nat \<Rightarrow> nat" where
  "float_shift a = (if a < 16777216 then 0 else Suc (float_shift (a div 2)))"

definition float_cast :: "int \<Rightarrow> real" where
  "float_cast x =
     (let a = nat \<bar>x\<bar>;
          m = 2 ^ float_shift a;
          q = a div m;
          r = a mod m;
          q' = (if m < 2 * r \<or> (2 * r = m \<and> odd q) then q + 1 else q)
      in of_int (sgn x) * of_nat (q' * m))"

text \<open>The error codes of \<^verbatim>\<open>openh264_shim.h\<close>, with their integer values.\<close>

datatype h264_result_t =
    H264_SUCCESS
  | H264_ERROR_INVALID_PARAM
  | H264_ERROR_MEMORY_ALLOC
  | H264_ERROR_ENCODER_INIT
  | H264_ERROR_ENCODE_FAILED
  | H264_ERROR_NULL_ENCODER
  | H264_ERROR_OUTPUT_BUFFER_TOO_SMALL

fun result_code :: "h264_result_t \<Rightarrow> int" where
  "result_code H264_SUCCESS = 0"
| "result_code H264_ERROR_INVALID_PARAM = - 1"
| "result_code H264_ERROR_MEMORY_ALLOC = - 2"
| "result_code H264_ERROR_ENCODER_INIT = - 3"
| "result_code H264_ERROR_ENCODE_FAILED = - 4"
| "result_code H264_ERROR_NULL_ENCODER = - 5"
| "result_code H264_ERROR_OUTPUT_BUFFER_TOO_SMALL = - 6"

subsection \<open>Types of the engine's interface\<close>

text \<open>
  Modelled from the spec: the engine's header \<^verbatim>\<open><wels/codec_api.h>\<close>, which the shim
  includes, is not among the sources. The enumerations and structures below are the
  parts of that interface the shim reads or writes, under the names the shim uses;
  an enumeration has the values the shim names and one constructor for the others,
  an integer field is an \<^typ>\<open>int\<close>, a \<^verbatim>\<open>float\<close> field holds the \<^typ>\<open>real\<close> number
  that the float is.
\<close>

datatype EVideoFrameType =
    videoFrameTypeInvalid
  | videoFrameTypeIDR
  | videoFrameTypeI
  | videoFrameTypeP
  | videoFrameTypeSkip
  | videoFrameTypeIPMixed

datatype EVideoFormatType = videoFormatI420 | videoFormatOther int

datatype EUsageType = CAMERA_VIDEO_REAL_TIME | SCREEN_CONTENT_REAL_TIME | UsageOther int

datatype RC_MODES = RC_QUALITY_MODE | RC_BITRATE_MODE | RC_BUFFERBASED_MODE | RC_OtherMode int

datatype EParameterSetStrategy = CONSTANT_ID | SpsPpsIdOther int

datatype EProfileIdc = PRO_UNKNOWN | PRO_BASELINE | ProfileOther int

datatype ELevelIdc = LEVEL_UNKNOWN | LEVEL_3_1 | LevelOther int

datatype SliceModeEnum = SM_SINGLE_SLICE | SliceModeOther int

definition cmResultSuccess :: int where
  "cmResultSuccess = 0"

text \<open>The picture handed to \<^verbatim>\<open>EncodeFrame\<close>: geometry, colour format, three strides, three planes.\<close>

record SSourcePicture =
  iColorFormat :: EVideoFormatType
  iStride :: "int list"
  pData :: "u8 list list"
  iPicWidth :: int
  iPicHeight :: int

record SSliceArgument =
  uiSliceMode :: SliceModeEnum
  uiSliceNum :: int
  uiSliceSizeConstraint :: int

record SSpatialLayerConfig =
  iVideoWidth :: int
  iVideoHeight :: int
  fFrameRate :: real
  iSpatialBitrate :: int
  iMaxSpatialBitrate :: int
  uiProfileIdc :: EProfileIdc
  uiLevelIdc :: ELevelIdc
  iDLayerQp :: int
  sSliceArgument :: SSliceArgument

record SEncParamExt =
  iUsageType :: EUsageType
  fMaxFrameRate :: real
  iPicWidth :: int
  iPicHeight :: int
  iTargetBitrate :: int
  iMaxBitrate :: int
  iRCMode :: RC_MODES
  iTemporalLayerNum :: int
  iSpatialLayerNum :: int
  bEnableDenoise :: bool
  bEnableBackgroundDetection :: bool
  bEnableAdaptiveQuant :: bool
  bEnableFrameSkip :: bool
  bEnableLongTermReference :: bool
  iLtrMarkPeriod :: int
  uiIntraPeriod :: int
  eSpsPpsIdStrategy :: EParameterSetStrategy
  bPrefixNalAddingCtrl :: bool
  iLoopFilterDisableIdc :: int
  iLoopFilterAlphaC0Offset :: int
  iLoopFilterBetaOffset :: int
  bEnableSSEI :: bool
  bSimulcastAVC :: bool
  iPaddingFlag :: int
  iEntropyCodingModeFlag :: int
  sSpatialLayers :: "SSpatialLayerConfig list"
  iMultipleThreadIdc :: int

text \<open>
  One layer of the engine's output: \<open>pNalLengthInByte\<close> is the array of NAL lengths,
  of which the first \<open>iNalCount\<close> are in use, and \<open>pBsBuf\<close> the bytes at the layer's
  bitstream pointer.
\<close>

record SLayerBSInfo =
  iNalCount :: int
  pNalLengthInByte :: "int list"
  pBsBuf :: "u8 list"

record SFrameBSInfo =
  iLayerNum :: int
  sLayerInfo :: "SLayerBSInfo list"
  eFrameType :: EVideoFrameType

text \<open>The methods of the engine object that the shim calls, with their arguments.\<close>

datatype engine_call =
    GetDefaultParams
  | InitializeExt SEncParamExt
  | Uninitialize
  | SetOption_DATAFORMAT EVideoFormatType
  | ForceIntraFrame bool
  | EncodeFrame SSourcePicture

record ISVCEncoder =
  calls :: "engine_call list"

definition engine_do :: "engine_call \<Rightarrow> ISVCEncoder \<Rightarrow> ISVCEncoder" where
  "engine_do c e = e\<lparr>calls := calls e @ [c]\<rparr>"

subsection \<open>The shim's context\<close>

record encoder_context_t =
  encoder :: "ISVCEncoder option"
  width :: int
  height :: int
  fps :: int
  bitrate :: int
  keyint :: int
  force_idr :: int

text \<open>The opaque handle \<^verbatim>\<open>h264_encoder_t\<close> is a pointer to the context.\<close>

type_synonym h264_encoder_t = "encoder_context_t option"

section \<open>Forcing a keyframe\<close>

text \<open>
  \<^verbatim>\<open>h264_encoder_force_idr\<close> returns its code; the second component is the handle with
  the context as the call leaves it.
\<close>

definition h264_encoder_force_idr :: "h264_encoder_t \<Rightarrow> h264_result_t \<times> h264_encoder_t" where
  "h264_encoder_force_idr enc =
     (if enc = None then (H264_ERROR_INVALID_PARAM, enc)
      else
        let ctx = the enc in
        if encoder ctx = None then (H264_ERROR_NULL_ENCODER, Some ctx)
        else (H264_SUCCESS, Some (ctx\<lparr>force_idr := 1\<rparr>)))"

section \<open>Encoding one frame\<close>

text \<open>
  \<^verbatim>\<open>memcpy(dst + offset, src, n)\<close> on byte lists, \<open>n\<close> being the \<^verbatim>\<open>int\<close> that the
  call converts to \<^verbatim>\<open>size_t\<close>. The lists are the arrays the pointers point into: the
  copy is \<open>None\<close> when it would start before \<open>dst\<close>, end after it, or read more
  bytes than \<open>src\<close> has, which is undefined in C.
\<close>

definition memcpy :: "u8 list \<Rightarrow> int \<Rightarrow> u8 list \<Rightarrow> int \<Rightarrow> u8 list option" where
  "memcpy dst offset src n =
     (if 0 \<le> offset \<and> offset + size_t n \<le> int (length dst) \<and> size_t n \<le> int (length src)
      then Some (take (nat offset) dst @ take (nat (size_t n)) src @
                 drop (nat (offset + size_t n)) dst)
      else None)"

text \<open>
  The inner loop of both passes,
  \<^verbatim>\<open>for (nal = 0; nal < iNalCount; ++nal) acc += pNalLengthInByte[nal];\<close>
  from the index \<open>nal\<close> and the running sum \<open>acc\<close>, an \<^verbatim>\<open>int\<close>. The index stays below
  \<open>iNalCount\<close>, so its increment does not overflow.
\<close>

function sum_nal_lengths :: "SLayerBSInfo \<Rightarrow> int \<Rightarrow> int \<Rightarrow> int" where
  "sum_nal_lengths layer_info nal acc =
     (if nal < iNalCount layer_info
      then sum_nal_lengths layer_info (nal + 1)
             (int32 (acc + pNalLengthInByte layer_info ! nat nal))
      else acc)"
  by pat_completeness auto
termination
  by (relation "measure (\<lambda>(layer_info, nal, acc). nat (iNalCount layer_info - nal))") auto

text \<open>
  The first pass: \<^verbatim>\<open>total_size\<close> over all layers, from the index \<open>layer\<close>.
\<close>

function sum_layers :: "SFrameBSInfo \<Rightarrow> int \<Rightarrow> int \<Rightarrow> int" where
  "sum_layers info layer total_size =
     (if layer < iLayerNum info
      then sum_layers info (layer + 1)
             (sum_nal_lengths (sLayerInfo info ! nat layer) 0 total_size)
      else total_size)"
  by pat_completeness auto
termination
  by (relation "measure (\<lambda>(info, layer, total_size). nat (iLayerNum info - layer))") auto

text \<open>
  How the second pass ends: with the return of \<^verbatim>\<open>H264_ERROR_OUTPUT_BUFFER_TOO_SMALL\<close>
  from inside the loop, or at the end of the loop with the final offset. Both carry
  the buffer as the copies have left it and whether one of the copies was a memory
  fault.
\<close>

datatype copy_end =
    Return_too_small "u8 list" bool
  | Loop_done "u8 list" int bool

text \<open>
  The second pass, from the index \<open>layer\<close>, the buffer, the fault flag and \<open>offset\<close>.
  \<open>layer_size\<close> and \<open>offset + layer_size\<close> are \<^verbatim>\<open>int\<close> computations. A faulting
  \<^verbatim>\<open>memcpy\<close> sets the flag and leaves the model's buffer as it was; the loop's
  control flow does not depend on the bytes and goes on as in the source.
\<close>

function copy_layers ::
  "SFrameBSInfo \<Rightarrow> int \<Rightarrow> int \<Rightarrow> u8 list \<Rightarrow> bool \<Rightarrow> int \<Rightarrow> copy_end" where
  "copy_layers info out_buf_size layer out_buf fault offset =
     (if layer < iLayerNum info then
        let layer_info = sLayerInfo info ! nat layer;
            layer_size = sum_nal_lengths layer_info 0 0
        in if int32 (offset + layer_size) > out_buf_size
           then Return_too_small out_buf fault
           else copy_layers info out_buf_size (layer + 1)
                  (case memcpy out_buf offset (pBsBuf layer_info) layer_size of
                     Some b \<Rightarrow> b
                   | None \<Rightarrow> out_buf)
                  (fault \<or> memcpy out_buf offset (pBsBuf layer_info) layer_size = None)
                  (int32 (offset + layer_size))
      else Loop_done out_buf offset fault)"
  by pat_completeness auto
termination
  by (relation "measure (\<lambda>(info, out_buf_size, layer, out_buf, fault, offset).
        nat (iLayerNum info - layer))") auto

text \<open>
  The block that prepares \<^verbatim>\<open>pic\<close>: the context's geometry, the fixed colour format,
  the strides and the planes as given.
\<close>

definition source_picture ::
  "encoder_context_t \<Rightarrow> u8 list \<Rightarrow> u8 list \<Rightarrow> u8 list \<Rightarrow> int \<Rightarrow> int \<Rightarrow> int \<Rightarrow> SSourcePicture" where
  "source_picture ctx y u v stride_y stride_u stride_v =
     \<lparr>iColorFormat = videoFormatI420,
      iStride = [stride_y, stride_u, stride_v],
      pData = [y, u, v],
      iPicWidth = width ctx, iPicHeight = height ctx\<rparr>"

text \<open>
  What a call of \<^verbatim>\<open>h264_encoder_encode\<close> leaves behind: the handle's context, the
  output buffer, the two output integers, and whether a \<^verbatim>\<open>memcpy\<close> of the call left
  its arrays. After a memory fault the bytes of the buffer mean nothing.
\<close>

record encode_post =
  encoder_post :: h264_encoder_t
  out_buf_post :: "u8 list option"
  out_size_post :: "int option"
  is_keyframe_post :: "int option"
  memory_fault_post :: bool

text \<open>
  \<open>reply\<close> is what the engine's \<^verbatim>\<open>EncodeFrame\<close> answers when it is called: its return
  value and the \<^verbatim>\<open>SFrameBSInfo\<close> it fills.
\<close>

definition h264_encoder_encode ::
  "int \<times> SFrameBSInfo \<Rightarrow> h264_encoder_t \<Rightarrow>
   u8 list option \<Rightarrow> u8 list option \<Rightarrow> u8 list option \<Rightarrow> int \<Rightarrow> int \<Rightarrow> int \<Rightarrow>
   u8 list option \<Rightarrow> int \<Rightarrow> int option \<Rightarrow> int option \<Rightarrow> h264_result_t \<times> encode_post" where
  "h264_encoder_encode reply enc y u v stride_y stride_u stride_v
       out_buf out_buf_size out_size is_keyframe =
     (if enc = None \<or> y = None \<or> u = None \<or> v = None \<or> out_buf = None \<or>
         out_size = None \<or> is_keyframe = None
      then (H264_ERROR_INVALID_PARAM,
            \<lparr>encoder_post = enc, out_buf_post = out_buf,
             out_size_post = out_size, is_keyframe_post = is_keyframe,
             memory_fault_post = False\<rparr>)
      else
        let ctx = the enc in
        if encoder ctx = None
        then (H264_ERROR_NULL_ENCODER,
              \<lparr>encoder_post = Some ctx, out_buf_post = out_buf,
               out_size_post = out_size, is_keyframe_post = is_keyframe,
             memory_fault_post = False\<rparr>)
        else
          let pic = source_picture ctx (the y) (the u) (the v) stride_y stride_u stride_v;
              e0 = the (encoder ctx);
              e1 = (if force_idr ctx \<noteq> 0 then engine_do (ForceIntraFrame True) e0 else e0);
              ctx1 = (if force_idr ctx \<noteq> 0 then ctx\<lparr>force_idr := 0\<rparr> else ctx);
              e2 = engine_do (EncodeFrame pic) e1;
              ctx2 = ctx1\<lparr>encoder := Some e2\<rparr>;
              (ret, info) = reply
          in
          if ret \<noteq> cmResultSuccess
          then (H264_ERROR_ENCODE_FAILED,
                \<lparr>encoder_post = Some ctx2, out_buf_post = out_buf,
                 out_size_post = Some 0, is_keyframe_post = Some 0,
                 memory_fault_post = False\<rparr>)
          else if eFrameType info = videoFrameTypeSkip
          then (H264_SUCCESS,
                \<lparr>encoder_post = Some ctx2, out_buf_post = out_buf,
                 out_size_post = Some 0, is_keyframe_post = Some 0,
                 memory_fault_post = False\<rparr>)
          else
            let total_size = sum_layers info 0 0 in
            if total_size > out_buf_size
            then (H264_ERROR_OUTPUT_BUFFER_TOO_SMALL,
                  \<lparr>encoder_post = Some ctx2, out_buf_post = out_buf,
                   out_size_post = Some 0, is_keyframe_post = Some 0,
                 memory_fault_post = False\<rparr>)
            else
              let kf = (if eFrameType info = videoFrameTypeIDR \<or>
                           eFrameType info = videoFrameTypeI then 1 else 0)
              in case copy_layers info out_buf_size 0 (the out_buf) False 0 of
                   Return_too_small b fault \<Rightarrow>
                     (H264_ERROR_OUTPUT_BUFFER_TOO_SMALL,
                      \<lparr>encoder_post = Some ctx2, out_buf_post = Some b,
                       out_size_post = Some 0, is_keyframe_post = Some kf,
                       memory_fault_post = fault\<rparr>)
                 | Loop_done b offset fault \<Rightarrow>
                     (H264_SUCCESS,
                      \<lparr>encoder_post = Some ctx2, out_buf_post = Some b,
                       out_size_post = Some offset, is_keyframe_post = Some kf,
                       memory_fault_post = fault\<rparr>))"

section \<open>Creating and destroying an encoder\<close>

text \<open>
  The parameter block of \<^verbatim>\<open>h264_encoder_create\<close>: \<open>defaults\<close> is what the engine's
  \<^verbatim>\<open>GetDefaultParams\<close> has filled in, and the assignments follow in the order of the
  source. The arguments carry a prime where the context has a field of the same name.
  \<^verbatim>\<open>sSpatialLayers\<close> is an array of the engine's fixed number of layers, of which the
  shim writes element 0. The products \<^verbatim>\<open>bitrate * 2\<close> are \<^verbatim>\<open>int\<close> computations.
\<close>

definition derive_params ::
  "SEncParamExt \<Rightarrow> int \<Rightarrow> int \<Rightarrow> int \<Rightarrow> int \<Rightarrow> int \<Rightarrow> int \<Rightarrow> SEncParamExt" where
  "derive_params defaults width' height' fps' bitrate' keyint' threads =
     (let param = defaults
            \<lparr>iUsageType := CAMERA_VIDEO_REAL_TIME,
             fMaxFrameRate := float_cast fps',
             iPicWidth := width',
             iPicHeight := height',
             iTargetBitrate := bitrate',
             iMaxBitrate := int32 (bitrate' * 2),
             iRCMode := RC_BITRATE_MODE,
             iTemporalLayerNum := 1,
             iSpatialLayerNum := 1,
             bEnableDenoise := False,
             bEnableBackgroundDetection := True,
             bEnableAdaptiveQuant := True,
             bEnableFrameSkip := True,
             bEnableLongTermReference := False,
             iLtrMarkPeriod := 30,
             uiIntraPeriod := keyint',
             eSpsPpsIdStrategy := CONSTANT_ID,
             bPrefixNalAddingCtrl := False,
             iLoopFilterDisableIdc := 0,
             iLoopFilterAlphaC0Offset := 0,
             iLoopFilterBetaOffset := 0,
             bEnableSSEI := True,
             bSimulcastAVC := False,
             iPaddingFlag := 0,
             iEntropyCodingModeFlag := 0\<rparr>;
          layer0 = (sSpatialLayers param ! 0)
            \<lparr>iVideoWidth := width',
             iVideoHeight := height',
             fFrameRate := float_cast fps',
             iSpatialBitrate := bitrate',
             iMaxSpatialBitrate := int32 (bitrate' * 2),
             uiProfileIdc := PRO_BASELINE,
             uiLevelIdc := LEVEL_3_1,
             iDLayerQp := 26\<rparr>;
          layer0 = layer0
            \<lparr>sSliceArgument := (sSliceArgument layer0)
               \<lparr>uiSliceMode := SM_SINGLE_SLICE,
                uiSliceNum := 1,
                uiSliceSizeConstraint := 0\<rparr>\<rparr>;
          param = param\<lparr>sSpatialLayers := (sSpatialLayers param)[0 := layer0]\<rparr>
      in if threads > 0 then param\<lparr>iMultipleThreadIdc := threads\<rparr>
         else param\<lparr>iMultipleThreadIdc := 1\<rparr>)"

text \<open>
  What \<^verbatim>\<open>h264_encoder_create\<close> and \<^verbatim>\<open>h264_encoder_destroy\<close> do to resources, in order:
  the context's \<^verbatim>\<open>calloc\<close> and \<^verbatim>\<open>free\<close>, and the engine's creation and destruction (the
  destroyed engine object carries the calls it has received).
\<close>

datatype resource_call =
    Calloc_ctx
  | Free_ctx
  | WelsCreateSVCEncoder
  | WelsDestroySVCEncoder ISVCEncoder

text \<open>
  What the environment answers during \<^verbatim>\<open>h264_encoder_create\<close>: whether \<^verbatim>\<open>calloc\<close>
  returns memory, the return value of \<^verbatim>\<open>WelsCreateSVCEncoder\<close> with the engine pointer it
  stores, the engine's default parameters, and the return value of \<^verbatim>\<open>InitializeExt\<close>.
\<close>

record create_env =
  calloc_ok :: bool
  WelsCreateSVCEncoder_reply :: "int \<times> ISVCEncoder option"
  GetDefaultParams_reply :: SEncParamExt
  InitializeExt_reply :: int

definition h264_encoder_create ::
  "create_env \<Rightarrow> int \<Rightarrow> int \<Rightarrow> int \<Rightarrow> int \<Rightarrow> int \<Rightarrow> int \<Rightarrow>
   h264_encoder_t \<times> resource_call list" where
  "h264_encoder_create env width' height' fps' bitrate' keyint' threads =
     (if width' \<le> 0 \<or> height' \<le> 0 \<or> fps' \<le> 0 \<or> bitrate' \<le> 0 \<or> keyint' \<le> 0
      then (None, [])
      else if \<not> calloc_ok env then (None, [Calloc_ctx])
      else
        let ctx = \<lparr>encoder = snd (WelsCreateSVCEncoder_reply env),
                   width = width', height = height', fps = fps',
                   bitrate = bitrate', keyint = keyint', force_idr = 0\<rparr>;
            ret = fst (WelsCreateSVCEncoder_reply env)
        in
        if ret \<noteq> 0 \<or> encoder ctx = None
        then (None, [Calloc_ctx, WelsCreateSVCEncoder, Free_ctx])
        else
          let e1 = engine_do GetDefaultParams (the (encoder ctx));
              param = derive_params (GetDefaultParams_reply env)
                        width' height' fps' bitrate' keyint' threads;
              e2 = engine_do (InitializeExt param) e1
          in
          if InitializeExt_reply env \<noteq> cmResultSuccess
          then (None, [Calloc_ctx, WelsCreateSVCEncoder,
                       WelsDestroySVCEncoder (engine_do Uninitialize e2), Free_ctx])
          else
            let e3 = engine_do (SetOption_DATAFORMAT videoFormatI420) e2
            in (Some (ctx\<lparr>encoder := Some e3\<rparr>), [Calloc_ctx, WelsCreateSVCEncoder]))"

definition h264_encoder_destroy :: "h264_encoder_t \<Rightarrow> resource_call list" where
  "h264_encoder_destroy enc =
     (if enc = None then []
      else
        let ctx = the enc in
        (if encoder ctx \<noteq> None
         then [WelsDestroySVCEncoder (engine_do Uninitialize (the (encoder ctx)))]
         else []) @ [Free_ctx])"

definition h264_encoder_version :: string where
  "h264_encoder_version = ''OpenH264 Shim v1.0.0''"

section \<open>The engine's output as the interface describes it\<close>

text \<open>
  The NAL lengths of a layer are the entries 0 to \<open>iNalCount - 1\<close> of its length
  array, the layers of a frame the entries 0 to \<open>iLayerNum - 1\<close> of \<open>sLayerInfo\<close>.
  The size of a layer is the sum of its NAL lengths, its bytes are that many bytes
  at its bitstream pointer, and the frame is the layers one after another.
\<close>

definition nal_lengths :: "SLayerBSInfo \<Rightarrow> int list" where
  "nal_lengths li = map (\<lambda>nal. pNalLengthInByte li ! nal) [0..<nat (iNalCount li)]"

definition layer_size_of :: "SLayerBSInfo \<Rightarrow> int" where
  "layer_size_of li = sum_list (nal_lengths li)"

definition layer_bytes :: "SLayerBSInfo \<Rightarrow> u8 list" where
  "layer_bytes li = take (nat (layer_size_of li)) (pBsBuf li)"

definition layers_from :: "SFrameBSInfo \<Rightarrow> nat \<Rightarrow> SLayerBSInfo list" where
  "layers_from info k = map (\<lambda>layer. sLayerInfo info ! layer) [k..<nat (iLayerNum info)]"

definition produced_layers :: "SFrameBSInfo \<Rightarrow> SLayerBSInfo list" where
  "produced_layers info = layers_from info 0"

definition frame_size :: "SFrameBSInfo \<Rightarrow> int" where
  "frame_size info = sum_list (map layer_size_of (produced_layers info))"

definition frame_bytes :: "SFrameBSInfo \<Rightarrow> u8 list" where
  "frame_bytes info = concat (map layer_bytes (produced_layers info))"

text \<open>
  A reply of the engine that keeps the shim inside the arrays: the counts stay
  within the arrays, and every layer's buffer holds the bytes of its NALs.
\<close>

definition layer_ok :: "SLayerBSInfo \<Rightarrow> bool" where
  "layer_ok li \<longleftrightarrow>
     nat (iNalCount li) \<le> length (pNalLengthInByte li) \<and>
     layer_size_of li \<le> int (length (pBsBuf li))"

definition frame_ok :: "SFrameBSInfo \<Rightarrow> bool" where
  "frame_ok info \<longleftrightarrow>
     nat (iLayerNum info) \<le> length (sLayerInfo info) \<and>
     list_all layer_ok (produced_layers info)"

text \<open>No NAL length of the reply is negative.\<close>

definition layer_nonneg :: "SLayerBSInfo \<Rightarrow> bool" where
  "layer_nonneg li \<longleftrightarrow> list_all (\<lambda>n. 0 \<le> n) (nal_lengths li)"

definition lengths_nonneg :: "SFrameBSInfo \<Rightarrow> bool" where
  "lengths_nonneg info \<longleftrightarrow> list_all layer_nonneg (produced_layers info)"

section \<open>Repeated requests and sample values\<close>

text \<open>\<open>n\<close> calls of \<^verbatim>\<open>h264_encoder_force_idr\<close> on a handle, one after another.\<close>

fun force_idr_times :: "nat \<Rightarrow> h264_encoder_t \<Rightarrow> h264_encoder_t" where
  "force_idr_times 0 h = h"
| "force_idr_times (Suc n) h = force_idr_times n (snd (h264_encoder_force_idr h))"

text \<open>
  A context for 640 by 360 pixels whose engine has received no call yet, an engine
  reply of two layers (two NALs of 2 and 1 bytes, then one NAL of 2 bytes), the reply
  for a skipped frame, and an environment in which \<^verbatim>\<open>h264_encoder_create\<close> succeeds.
\<close>

definition sample_ctx :: encoder_context_t where
  "sample_ctx =
     \<lparr>encoder = Some \<lparr>calls = []\<rparr>, width = 640, height = 360, fps = 30,
      bitrate = 500000, keyint = 60, force_idr = 0\<rparr>"

definition sample_info :: SFrameBSInfo where
  "sample_info =
     \<lparr>iLayerNum = 2,
      sLayerInfo =
        [\<lparr>iNalCount = 2, pNalLengthInByte = [2, 1], pBsBuf = [1, 2, 3]\<rparr>,
         \<lparr>iNalCount = 1, pNalLengthInByte = [2], pBsBuf = [4, 5]\<rparr>],
      eFrameType = videoFrameTypeIDR\<rparr>"

definition sample_skip :: SFrameBSInfo where
  "sample_skip = \<lparr>iLayerNum = 0, sLayerInfo = [], eFrameType = videoFrameTypeSkip\<rparr>"

definition sample_defaults :: SEncParamExt where
  "sample_defaults =
     \<lparr>iUsageType = SCREEN_CONTENT_REAL_TIME, fMaxFrameRate = 0,
      iPicWidth = 0, iPicHeight = 0, iTargetBitrate = 0, iMaxBitrate = 0,
      iRCMode = RC_QUALITY_MODE, iTemporalLayerNum = 1, iSpatialLayerNum = 1,
      bEnableDenoise = False, bEnableBackgroundDetection = True,
      bEnableAdaptiveQuant = True, bEnableFrameSkip = True,
      bEnableLongTermReference = False, iLtrMarkPeriod = 30, uiIntraPeriod = 0,
      eSpsPpsIdStrategy = CONSTANT_ID, bPrefixNalAddingCtrl = False,
      iLoopFilterDisableIdc = 0, iLoopFilterAlphaC0Offset = 0,
      iLoopFilterBetaOffset = 0, bEnableSSEI = False, bSimulcastAVC = False,
      iPaddingFlag = 0, iEntropyCodingModeFlag = 0,
      sSpatialLayers =
        [\<lparr>iVideoWidth = 0, iVideoHeight = 0, fFrameRate = 0, iSpatialBitrate = 0,
          iMaxSpatialBitrate = 0, uiProfileIdc = PRO_UNKNOWN, uiLevelIdc = LEVEL_UNKNOWN,
          iDLayerQp = 0,
          sSliceArgument =
            \<lparr>uiSliceMode = SM_SINGLE_SLICE, uiSliceNum = 0, uiSliceSizeConstraint = 0\<rparr>\<rparr>],
      iMultipleThreadIdc = 0\<rparr>"

definition sample_env :: create_env where
  "sample_env =
     \<lparr>calloc_ok = True,
      WelsCreateSVCEncoder_reply = (0, Some \<lparr>calls = []\<rparr>),
      GetDefaultParams_reply = sample_defaults,
      InitializeExt_reply = 0\<rparr>"

text \<open>
  Three more replies of the engine. The first has layers of 2, 5 and -4 bytes. The
  second has one layer whose NAL lengths, four times \<open>2 ^ 30\<close> and 5, add up to
  \<open>2 ^ 32 + 5\<close>. The third has layers of \<open>2 ^ 31 - 1\<close>, \<open>2 ^ 31 - 1\<close> and 7 bytes. The
  layer buffers of the last two hold the bytes the shim reads from them.
\<close>

definition sample_negative :: SFrameBSInfo where
  "sample_negative =
     \<lparr>iLayerNum = 3,
      sLayerInfo =
        [\<lparr>iNalCount = 1, pNalLengthInByte = [2], pBsBuf = [1, 2]\<rparr>,
         \<lparr>iNalCount = 1, pNalLengthInByte = [5], pBsBuf = [3, 4, 5, 6, 7]\<rparr>,
         \<lparr>iNalCount = 1, pNalLengthInByte = [- 4], pBsBuf = []\<rparr>],
      eFrameType = videoFrameTypeIDR\<rparr>"


definition sample_wrapped_layers :: SFrameBSInfo where
  "sample_wrapped_layers =
     \<lparr>iLayerNum = 3,
      sLayerInfo =
        [\<lparr>iNalCount = 1, pNalLengthInByte = [2147483647], pBsBuf = [1, 2]\<rparr>,
         \<lparr>iNalCount = 1, pNalLengthInByte = [2147483647], pBsBuf = [3, 4]\<rparr>,
         \<lparr>iNalCount = 1, pNalLengthInByte = [7], pBsBuf = [5, 6, 7, 8, 9, 10, 11]\<rparr>],
      eFrameType = videoFrameTypeIDR\<rparr>"

section \<open>The two passes over the engine's output\<close>

text \<open>
  The loops are unfolded one step at a time in the proofs below, never by the
  simplifier on its own.
\<close>

declare sum_nal_lengths.simps [simp del] sum_layers.simps [simp del] copy_layers.simps [simp del]
declare float_shift.simps [simp del]

lemma int32_id: "INT_MIN \<le> x \<Longrightarrow> x \<le> INT_MAX \<Longrightarrow> int32 x = x"
  by (simp add: int32_def INT_MIN_def INT_MAX_def)

lemma size_t_id: "0 \<le> n \<Longrightarrow> n \<le> INT_MAX \<Longrightarrow> size_t n = n"
  by (simp add: size_t_def INT_MAX_def)

lemma sum_nal_lengths_from:
  "0 \<le> nal \<Longrightarrow> 0 \<le> acc \<Longrightarrow>
   list_all (\<lambda>n. 0 \<le> n) (map (\<lambda>k. pNalLengthInByte li ! k) [nat nal..<nat (iNalCount li)]) \<Longrightarrow>
   acc + sum_list (map (\<lambda>k. pNalLengthInByte li ! k) [nat nal..<nat (iNalCount li)]) \<le> INT_MAX \<Longrightarrow>
   sum_nal_lengths li nal acc =
     acc + sum_list (map (\<lambda>k. pNalLengthInByte li ! k) [nat nal..<nat (iNalCount li)])"
proof (induction li nal acc rule: sum_nal_lengths.induct)
  case (1 li nal acc)
  show ?case
  proof (cases "nal < iNalCount li")
    case True
    define v where "v = pNalLengthInByte li ! nat nal"
    define rest where "rest = map (\<lambda>k. pNalLengthInByte li ! k) [nat (nal + 1)..<nat (iNalCount li)]"
    have up: "map (\<lambda>k. pNalLengthInByte li ! k) [nat nal..<nat (iNalCount li)] = v # rest"
      using True "1.prems"(1) by (simp add: upt_conv_Cons nat_add_distrib v_def rest_def)
    have v0: "0 \<le> v" and rest0: "list_all (\<lambda>n. 0 \<le> n) rest"
      using "1.prems"(3) by (simp_all add: up)
    have r0: "0 \<le> sum_list rest"
      using rest0 by (auto intro!: sum_list_nonneg simp: list_all_iff)
    have bound: "acc + v + sum_list rest \<le> INT_MAX"
      using "1.prems"(4) by (simp add: up)
    have wrap: "int32 (acc + v) = acc + v"
      using v0 r0 bound "1.prems"(2) by (intro int32_id) (simp_all add: INT_MIN_def)
    have "sum_nal_lengths li (nal + 1) (acc + v) = acc + v + sum_list rest"
      using "1.IH" [OF True] "1.prems"(1,2) v0 rest0 bound
      by (simp add: wrap v_def [symmetric] rest_def [symmetric])
    then show ?thesis
      using True by (subst sum_nal_lengths.simps) (simp add: up wrap v_def [symmetric])
  next
    case False
    then show ?thesis
      by (subst sum_nal_lengths.simps) simp
  qed
qed

lemma sum_nal_lengths_layer_size:
  "layer_nonneg li \<Longrightarrow> 0 \<le> acc \<Longrightarrow> acc + layer_size_of li \<le> INT_MAX \<Longrightarrow>
   sum_nal_lengths li 0 acc = acc + layer_size_of li"
  using sum_nal_lengths_from [of 0 acc li]
  by (simp add: layer_nonneg_def layer_size_of_def nal_lengths_def)

lemma layers_from_step:
  "0 \<le> layer \<Longrightarrow> layer < iLayerNum info \<Longrightarrow>
   layers_from info (nat layer) = sLayerInfo info ! nat layer # layers_from info (nat (layer + 1))"
  by (simp add: layers_from_def upt_conv_Cons nat_add_distrib)

lemma layers_from_done:
  "\<not> layer < iLayerNum info \<Longrightarrow> layers_from info (nat layer) = []"
  by (simp add: layers_from_def)

lemma layer_size_nonneg: "layer_nonneg li \<Longrightarrow> 0 \<le> layer_size_of li"
  unfolding layer_nonneg_def layer_size_of_def
  by (auto intro!: sum_list_nonneg simp: list_all_iff)

lemma layers_size_nonneg: "list_all layer_nonneg ls \<Longrightarrow> 0 \<le> sum_list (map layer_size_of ls)"
  by (auto intro!: sum_list_nonneg simp: list_all_iff layer_size_nonneg)

lemma sum_layers_from:
  "0 \<le> layer \<Longrightarrow> 0 \<le> total_size \<Longrightarrow>
   list_all layer_nonneg (layers_from info (nat layer)) \<Longrightarrow>
   total_size + sum_list (map layer_size_of (layers_from info (nat layer))) \<le> INT_MAX \<Longrightarrow>
   sum_layers info layer total_size =
     total_size + sum_list (map layer_size_of (layers_from info (nat layer)))"
proof (induction info layer total_size rule: sum_layers.induct)
  case (1 info layer total_size)
  show ?case
  proof (cases "layer < iLayerNum info")
    case True
    define li where "li = sLayerInfo info ! nat layer"
    define rest where "rest = layers_from info (nat (layer + 1))"
    have step: "layers_from info (nat layer) = li # rest"
      using True "1.prems"(1) by (simp add: layers_from_step li_def rest_def)
    have li0: "layer_nonneg li" and rest0: "list_all layer_nonneg rest"
      using "1.prems"(3) by (simp_all add: step)
    have s0: "0 \<le> layer_size_of li" using li0 by (rule layer_size_nonneg)
    have r0: "0 \<le> sum_list (map layer_size_of rest)" using rest0 by (rule layers_size_nonneg)
    have bound: "total_size + layer_size_of li + sum_list (map layer_size_of rest) \<le> INT_MAX"
      using "1.prems"(4) by (simp add: step)
    have inner: "sum_nal_lengths li 0 total_size = total_size + layer_size_of li"
      using li0 "1.prems"(2) bound r0 by (intro sum_nal_lengths_layer_size) simp_all
    have "sum_layers info (layer + 1) (total_size + layer_size_of li) =
            total_size + layer_size_of li + sum_list (map layer_size_of rest)"
      using "1.IH" [OF True] "1.prems"(1,2) s0 rest0 bound
      by (simp add: inner li_def [symmetric] rest_def [symmetric])
    then show ?thesis
      using True
      by (subst sum_layers.simps) (simp add: step inner li_def [symmetric])
  next
    case False
    then show ?thesis
      by (subst sum_layers.simps) (simp add: layers_from_done)
  qed
qed

lemma sum_layers_frame_size:
  "lengths_nonneg info \<Longrightarrow> frame_size info \<le> INT_MAX \<Longrightarrow> sum_layers info 0 0 = frame_size info"
  using sum_layers_from [of 0 0 info]
  by (simp add: frame_size_def produced_layers_def lengths_nonneg_def)

lemma length_layer_bytes:
  "layer_ok li \<Longrightarrow> layer_nonneg li \<Longrightarrow> int (length (layer_bytes li)) = layer_size_of li"
  using layer_size_nonneg [of li] by (auto simp add: layer_bytes_def layer_ok_def min_def)

lemma memcpy_layer:
  assumes "layer_ok li" "layer_nonneg li" "0 \<le> offset"
      and "offset + layer_size_of li \<le> int (length buf)" "layer_size_of li \<le> INT_MAX"
  shows "memcpy buf offset (pBsBuf li) (layer_size_of li) =
           Some (take (nat offset) buf @ layer_bytes li @
                 drop (nat (offset + layer_size_of li)) buf)"
proof -
  have s0: "0 \<le> layer_size_of li" using assms(2) by (rule layer_size_nonneg)
  have st: "size_t (layer_size_of li) = layer_size_of li"
    using s0 assms(5) by (rule size_t_id)
  show ?thesis
    using assms(1,3,4) s0 by (simp add: memcpy_def st layer_bytes_def layer_ok_def)
qed

lemma copy_layers_step:
  assumes "0 \<le> layer" "layer < iLayerNum info" "0 \<le> offset"
      and "layer_nonneg (sLayerInfo info ! nat layer)"
      and "offset + layer_size_of (sLayerInfo info ! nat layer) \<le> out_buf_size"
      and "offset + layer_size_of (sLayerInfo info ! nat layer) \<le> INT_MAX"
  shows "copy_layers info out_buf_size layer out_buf fault offset =
         copy_layers info out_buf_size (layer + 1)
           (case memcpy out_buf offset (pBsBuf (sLayerInfo info ! nat layer))
                   (layer_size_of (sLayerInfo info ! nat layer)) of
              Some b \<Rightarrow> b | None \<Rightarrow> out_buf)
           (fault \<or> memcpy out_buf offset (pBsBuf (sLayerInfo info ! nat layer))
                      (layer_size_of (sLayerInfo info ! nat layer)) = None)
           (offset + layer_size_of (sLayerInfo info ! nat layer))"
proof -
  define li where "li = sLayerInfo info ! nat layer"
  have s0: "0 \<le> layer_size_of li" using assms(4) by (simp add: li_def layer_size_nonneg)
  have size: "sum_nal_lengths li 0 0 = layer_size_of li"
    using assms(3,4,6) s0 sum_nal_lengths_layer_size [of li 0] by (simp add: li_def)
  have wrap: "int32 (offset + layer_size_of li) = offset + layer_size_of li"
    using assms(3,6) s0 by (intro int32_id) (simp_all add: INT_MIN_def li_def)
  show ?thesis
    using assms(2,5)
    by (subst copy_layers.simps)
       (simp add: Let_def li_def [symmetric] size wrap)
qed

lemma copy_layers_no_early_return:
  "0 \<le> layer \<Longrightarrow> 0 \<le> offset \<Longrightarrow>
   list_all layer_nonneg (layers_from info (nat layer)) \<Longrightarrow>
   offset + sum_list (map layer_size_of (layers_from info (nat layer))) \<le> out_buf_size \<Longrightarrow>
   offset + sum_list (map layer_size_of (layers_from info (nat layer))) \<le> INT_MAX \<Longrightarrow>
   \<exists>b f. copy_layers info out_buf_size layer out_buf fault offset =
         Loop_done b (offset + sum_list (map layer_size_of (layers_from info (nat layer)))) f"
proof (induction "nat (iLayerNum info - layer)" arbitrary: layer out_buf fault offset)
  case 0
  then have "\<not> layer < iLayerNum info" by simp
  then show ?case
    by (subst copy_layers.simps) (simp add: layers_from_done)
next
  case (Suc n)
  then have True: "layer < iLayerNum info" by simp
  define li where "li = sLayerInfo info ! nat layer"
  define rest where "rest = layers_from info (nat (layer + 1))"
  define s where "s = layer_size_of li"
  define r where "r = sum_list (map layer_size_of rest)"
  have step: "layers_from info (nat layer) = li # rest"
    using True Suc.prems(1) by (simp add: layers_from_step li_def rest_def)
  have li0: "layer_nonneg li" and rest0: "list_all layer_nonneg rest"
    using Suc.prems(3) by (simp_all add: step)
  have s0: "0 \<le> s" using li0 by (simp add: s_def layer_size_nonneg)
  have r0: "0 \<le> r" using rest0 by (simp add: r_def layers_size_nonneg)
  have bound: "offset + s + r \<le> out_buf_size" "offset + s + r \<le> INT_MAX"
    using Suc.prems(4,5) by (simp_all add: step s_def r_def)
  have n: "n = nat (iLayerNum info - (layer + 1))"
    using Suc.hyps(2) by simp
  have unfold: "copy_layers info out_buf_size layer out_buf fault offset =
         copy_layers info out_buf_size (layer + 1)
           (case memcpy out_buf offset (pBsBuf li) s of Some b \<Rightarrow> b | None \<Rightarrow> out_buf)
           (fault \<or> memcpy out_buf offset (pBsBuf li) s = None) (offset + s)"
    using copy_layers_step [OF Suc.prems(1) True Suc.prems(2), of out_buf_size out_buf fault]
          li0 bound r0
    by (simp add: li_def [symmetric] s_def [symmetric])
  from Suc.hyps(1) [OF n, of "offset + s"
         "case memcpy out_buf offset (pBsBuf li) s of Some b \<Rightarrow> b | None \<Rightarrow> out_buf"
         "fault \<or> memcpy out_buf offset (pBsBuf li) s = None"]
  have "\<exists>b f. copy_layers info out_buf_size (layer + 1)
           (case memcpy out_buf offset (pBsBuf li) s of Some b \<Rightarrow> b | None \<Rightarrow> out_buf)
           (fault \<or> memcpy out_buf offset (pBsBuf li) s = None) (offset + s) =
         Loop_done b (offset + s + r) f"
    using Suc.prems(1,2) s0 rest0 bound
    by (simp add: rest_def [symmetric] r_def [symmetric])
  then show ?case
    unfolding unfold by (simp add: step s_def [symmetric] r_def [symmetric] add.assoc)
qed

lemma copy_layers_from:
  "0 \<le> layer \<Longrightarrow> 0 \<le> offset \<Longrightarrow>
   list_all layer_ok (layers_from info (nat layer)) \<Longrightarrow>
   list_all layer_nonneg (layers_from info (nat layer)) \<Longrightarrow>
   offset + sum_list (map layer_size_of (layers_from info (nat layer))) \<le> out_buf_size \<Longrightarrow>
   offset + sum_list (map layer_size_of (layers_from info (nat layer))) \<le> INT_MAX \<Longrightarrow>
   out_buf_size \<le> int (length out_buf) \<Longrightarrow>
   copy_layers info out_buf_size layer out_buf fault offset =
     Loop_done
       (take (nat offset) out_buf @
        concat (map layer_bytes (layers_from info (nat layer))) @
        drop (nat (offset + sum_list (map layer_size_of (layers_from info (nat layer))))) out_buf)
       (offset + sum_list (map layer_size_of (layers_from info (nat layer))))
       fault"
proof (induction "nat (iLayerNum info - layer)" arbitrary: layer out_buf offset)
  case 0
  then have "\<not> layer < iLayerNum info" by simp
  then show ?case
    by (subst copy_layers.simps) (simp add: layers_from_done)
next
  case (Suc n)
  then have True: "layer < iLayerNum info" by simp
  define li where "li = sLayerInfo info ! nat layer"
  define rest where "rest = layers_from info (nat (layer + 1))"
  define s where "s = layer_size_of li"
  define r where "r = sum_list (map layer_size_of rest)"
  have step: "layers_from info (nat layer) = li # rest"
    using True Suc.prems(1) by (simp add: layers_from_step li_def rest_def)
  have li_ok: "layer_ok li" and rest_ok: "list_all layer_ok rest"
    using Suc.prems(3) by (simp_all add: step)
  have li0: "layer_nonneg li" and rest0: "list_all layer_nonneg rest"
    using Suc.prems(4) by (simp_all add: step)
  have s0: "0 \<le> s" using li0 by (simp add: s_def layer_size_nonneg)
  have r0: "0 \<le> r" using rest0 by (simp add: r_def layers_size_nonneg)
  have bound: "offset + s + r \<le> out_buf_size"
    using Suc.prems(5) by (simp add: step s_def r_def)
  have fits: "offset + s \<le> int (length out_buf)"
    using bound r0 Suc.prems(7) by simp
  have bound': "offset + s + r \<le> INT_MAX"
    using Suc.prems(6) by (simp add: step s_def r_def)
  have small: "s \<le> INT_MAX" "offset + s \<le> INT_MAX"
    using bound' r0 Suc.prems(2) by simp_all
  define buf1 where
    "buf1 = take (nat offset) out_buf @ layer_bytes li @ drop (nat (offset + s)) out_buf"
  have copy: "memcpy out_buf offset (pBsBuf li) s = Some buf1"
    unfolding buf1_def s_def
    using memcpy_layer [OF li_ok li0 Suc.prems(2)] fits small(1) by (simp add: s_def)
  have lb: "length (layer_bytes li) = nat s"
    using length_layer_bytes [OF li_ok li0] by (simp add: s_def)
  have len1: "length buf1 = length out_buf"
    using fits s0 Suc.prems(2) by (simp add: buf1_def lb nat_add_distrib)
  have n: "n = nat (iLayerNum info - (layer + 1))"
    using Suc.hyps(2) by simp
  have unfold: "copy_layers info out_buf_size layer out_buf fault offset =
                copy_layers info out_buf_size (layer + 1) buf1 fault (offset + s)"
    using copy_layers_step [OF Suc.prems(1) True Suc.prems(2), of out_buf_size out_buf fault]
          li0 bound r0 small(2)
    by (simp add: li_def [symmetric] s_def [symmetric] copy)
  from Suc.hyps(1) [OF n, of "offset + s" buf1]
  have IH: "copy_layers info out_buf_size (layer + 1) buf1 fault (offset + s) =
              Loop_done (take (nat (offset + s)) buf1 @ concat (map layer_bytes rest) @
                         drop (nat (offset + s + r)) buf1) (offset + s + r) fault"
    using Suc.prems(1,2,7) s0 rest_ok rest0 bound bound'
    by (simp add: rest_def [symmetric] r_def [symmetric] len1)
  have t: "take (nat (offset + s)) buf1 = take (nat offset) out_buf @ layer_bytes li"
    using fits s0 Suc.prems(2) by (simp add: buf1_def lb nat_add_distrib)
  have d: "drop (nat (offset + s + r)) buf1 = drop (nat (offset + s + r)) out_buf"
    using fits s0 r0 Suc.prems(2) by (simp add: buf1_def lb nat_add_distrib ac_simps)
  show ?case
    unfolding unfold IH t d
    by (simp add: step s_def [symmetric] r_def [symmetric] add.assoc)
qed

lemma copy_layers_frame:
  assumes "frame_ok info" "lengths_nonneg info" "frame_size info \<le> out_buf_size"
      and "frame_size info \<le> INT_MAX" "out_buf_size \<le> int (length out_buf)"
  shows "copy_layers info out_buf_size 0 out_buf fault 0 =
           Loop_done (frame_bytes info @ drop (nat (frame_size info)) out_buf)
             (frame_size info) fault"
  using copy_layers_from [of 0 0 info out_buf_size out_buf fault] assms
  by (simp add: frame_ok_def lengths_nonneg_def frame_size_def frame_bytes_def
        produced_layers_def)

lemma length_frame_bytes_aux:
  "list_all layer_ok ls \<Longrightarrow> list_all layer_nonneg ls \<Longrightarrow>
   int (length (concat (map layer_bytes ls))) = sum_list (map layer_size_of ls)"
  by (induction ls) (simp_all add: length_layer_bytes)

lemma length_frame_bytes:
  "frame_ok info \<Longrightarrow> lengths_nonneg info \<Longrightarrow> int (length (frame_bytes info)) = frame_size info"
  by (simp add: frame_ok_def lengths_nonneg_def frame_bytes_def frame_size_def
        length_frame_bytes_aux)

lemma sum_nal_lengths_concat:
  "sum_list (concat (map nal_lengths ls)) = sum_list (map layer_size_of ls)"
  by (induction ls) (simp_all add: layer_size_of_def)

section \<open>Properties of the frame pipeline\<close>

text \<open>
  C1, as the code has it. An encode call on a valid handle with a live engine, where
  the engine succeeds, the frame is not skipped, no NAL byte length is negative and
  the sum of all NAL byte lengths is at most the caller's buffer capacity, returns
  success; the reported size is exactly that sum, and the first that many bytes of
  the output buffer are the layers' bytes one after another in the order produced,
  with nothing in between; the bytes after them are unchanged and no copy leaves
  its arrays. The engine's reply stays within its arrays, the capacity is a C
  \<open>int\<close>, and the buffer holds at least the capacity the caller declares.
\<close>

theorem encode_packs_layers:
  assumes "encoder ctx \<noteq> None"
      and "frame_ok info"
      and "lengths_nonneg info"
      and "eFrameType info \<noteq> videoFrameTypeSkip"
      and "frame_size info \<le> out_buf_size"
      and "out_buf_size \<le> INT_MAX"
      and "out_buf_size \<le> int (length out_buf)"
      and "r = h264_encoder_encode (cmResultSuccess, info) (Some ctx) (Some y) (Some u) (Some v)
                 stride_y stride_u stride_v (Some out_buf) out_buf_size (Some os) (Some kf)"
  shows "fst r = H264_SUCCESS \<and>
         out_size_post (snd r) = Some (frame_size info) \<and>
         frame_size info = sum_list (concat (map nal_lengths (produced_layers info))) \<and>
         map_option (take (nat (frame_size info))) (out_buf_post (snd r)) =
           Some (concat (map layer_bytes (produced_layers info))) \<and>
         map_option (drop (nat (frame_size info))) (out_buf_post (snd r)) =
           Some (drop (nat (frame_size info)) out_buf) \<and>
         \<not> memory_fault_post (snd r)"
proof -
  have len: "length (frame_bytes info) = nat (frame_size info)"
    using length_frame_bytes [OF assms(2,3)] by simp
  have sum: "frame_size info = sum_list (concat (map nal_lengths (produced_layers info)))"
    by (simp add: frame_size_def sum_nal_lengths_concat)
  have small: "frame_size info \<le> INT_MAX"
    using assms(5,6) by simp
  have total: "sum_layers info 0 0 = frame_size info"
    using assms(3) small by (rule sum_layers_frame_size)
  have r: "fst r = H264_SUCCESS"
          "out_size_post (snd r) = Some (frame_size info)"
          "out_buf_post (snd r) = Some (frame_bytes info @ drop (nat (frame_size info)) out_buf)"
          "\<not> memory_fault_post (snd r)"
    using assms(1,4,5) copy_layers_frame [OF assms(2,3,5) small assms(7), of False]
    by (auto simp add: assms(8) h264_encoder_encode_def Let_def total)
  have "take (nat (frame_size info)) (frame_bytes info @ drop (nat (frame_size info)) out_buf)
          = concat (map layer_bytes (produced_layers info))"
    using len by (simp add: frame_bytes_def)
  moreover have "drop (nat (frame_size info)) (frame_bytes info @ drop (nat (frame_size info)) out_buf)
          = drop (nat (frame_size info)) out_buf"
    using len by simp
  ultimately show ?thesis
    using r sum by simp
qed

theorem encode_packs_layers_witness:
  "encoder sample_ctx \<noteq> None \<and> frame_ok sample_info \<and> lengths_nonneg sample_info \<and>
   eFrameType sample_info \<noteq> videoFrameTypeSkip \<and>
   frame_size sample_info \<le> 7 \<and> (7::int) \<le> INT_MAX \<and>
   (7::int) \<le> int (length [9, 9, 9, 9, 9, 9, 9 :: u8]) \<and>
   fst (h264_encoder_encode (cmResultSuccess, sample_info) (Some sample_ctx)
          (Some [16, 16]) (Some [128]) (Some [128]) 640 320 320
          (Some [9, 9, 9, 9, 9, 9, 9]) 7 (Some 0) (Some 0)) = H264_SUCCESS \<and>
   out_size_post (snd (h264_encoder_encode (cmResultSuccess, sample_info) (Some sample_ctx)
          (Some [16, 16]) (Some [128]) (Some [128]) 640 320 320
          (Some [9, 9, 9, 9, 9, 9, 9]) 7 (Some 0) (Some 0))) = Some 5 \<and>
   map_option (take 5)
     (out_buf_post (snd (h264_encoder_encode (cmResultSuccess, sample_info) (Some sample_ctx)
          (Some [16, 16]) (Some [128]) (Some [128]) 640 320 320
          (Some [9, 9, 9, 9, 9, 9, 9]) 7 (Some 0) (Some 0)))) = Some [1, 2, 3, 4, 5]"
proof -
  have h1: "encoder sample_ctx \<noteq> None" by (simp add: sample_ctx_def)
  have h2: "frame_ok sample_info" by code_simp
  have h3: "lengths_nonneg sample_info" by code_simp
  have h4: "eFrameType sample_info \<noteq> videoFrameTypeSkip" by (simp add: sample_info_def)
  have size: "frame_size sample_info = 5" by code_simp
  have bytes: "concat (map layer_bytes (produced_layers sample_info)) = [1, 2, 3, 4, 5]"
    by code_simp
  have h5: "frame_size sample_info \<le> 7" by (simp add: size)
  have h6: "(7::int) \<le> INT_MAX" by (simp add: INT_MAX_def)
  have h7: "(7::int) \<le> int (length [9, 9, 9, 9, 9, 9, 9 :: u8])" by simp
  from encode_packs_layers [OF h1 h2 h3 h4 h5 h6 h7 refl,
         of "[16, 16]" "[128]" "[128]" 640 320 320 0 0]
  show ?thesis
    using h1 h2 h3 h4 h5 h6 h7 by (simp add: size bytes)
qed

text \<open>
  C1 without the condition on the sign fails. The engine succeeds with an IDR frame
  of three layers of 2, 5 and -4 bytes, inside its arrays; the sum is 3 and the
  capacity 4. The upfront check passes, the first layer is copied, and the check in
  the loop returns \<open>H264_ERROR_OUTPUT_BUFFER_TOO_SMALL\<close> at the second layer: no
  success, 0 bytes reported, 2 bytes written.
\<close>

theorem encode_negative_length_too_small:
  "encoder sample_ctx \<noteq> None \<and> frame_ok sample_negative \<and>
   eFrameType sample_negative \<noteq> videoFrameTypeSkip \<and>
   sum_list (concat (map nal_lengths (produced_layers sample_negative))) = 3 \<and>
   frame_size sample_negative = 3 \<and> (3::int) \<le> 4 \<and>
   (4::int) \<le> int (length [9, 9, 9, 9, 9, 9, 9 :: u8]) \<and>
   h264_encoder_encode (cmResultSuccess, sample_negative) (Some sample_ctx)
       (Some [16, 16]) (Some [128]) (Some [128]) 640 320 320
       (Some [9, 9, 9, 9, 9, 9, 9]) 4 (Some 0) (Some 0) =
     (H264_ERROR_OUTPUT_BUFFER_TOO_SMALL,
      \<lparr>encoder_post = Some (sample_ctx\<lparr>encoder := Some \<lparr>calls =
         [EncodeFrame (source_picture sample_ctx [16, 16] [128] [128] 640 320 320)]\<rparr>\<rparr>),
       out_buf_post = Some [1, 2, 9, 9, 9, 9, 9],
       out_size_post = Some 0, is_keyframe_post = Some 1,
       memory_fault_post = False\<rparr>)"
  by code_simp




text \<open>
  C5. An encode call on a valid handle with a live engine for which the engine
  reports the frame as skipped returns success with 0 bytes written and the keyframe
  flag 0, and leaves the output buffer as it was.
\<close>

theorem encode_skipped_frame:
  assumes "encoder ctx \<noteq> None"
      and "eFrameType info = videoFrameTypeSkip"
      and "r = h264_encoder_encode (cmResultSuccess, info) (Some ctx) (Some y) (Some u) (Some v)
                 stride_y stride_u stride_v (Some out_buf) out_buf_size (Some os) (Some kf)"
  shows "fst r = H264_SUCCESS \<and> out_size_post (snd r) = Some 0 \<and>
         is_keyframe_post (snd r) = Some 0 \<and> out_buf_post (snd r) = Some out_buf"
  using assms by (auto simp add: h264_encoder_encode_def Let_def)

theorem encode_skipped_frame_witness:
  "encoder sample_ctx \<noteq> None \<and> eFrameType sample_skip = videoFrameTypeSkip \<and>
   fst (h264_encoder_encode (cmResultSuccess, sample_skip) (Some sample_ctx)
          (Some [16, 16]) (Some [128]) (Some [128]) 640 320 320
          (Some [9, 9, 9]) 3 (Some 33) (Some 1)) = H264_SUCCESS \<and>
   out_size_post (snd (h264_encoder_encode (cmResultSuccess, sample_skip) (Some sample_ctx)
          (Some [16, 16]) (Some [128]) (Some [128]) 640 320 320
          (Some [9, 9, 9]) 3 (Some 33) (Some 1))) = Some 0 \<and>
   is_keyframe_post (snd (h264_encoder_encode (cmResultSuccess, sample_skip) (Some sample_ctx)
          (Some [16, 16]) (Some [128]) (Some [128]) 640 320 320
          (Some [9, 9, 9]) 3 (Some 33) (Some 1))) = Some 0 \<and>
   out_buf_post (snd (h264_encoder_encode (cmResultSuccess, sample_skip) (Some sample_ctx)
          (Some [16, 16]) (Some [128]) (Some [128]) 640 320 320
          (Some [9, 9, 9]) 3 (Some 33) (Some 1))) = Some [9, 9, 9]"
proof -
  have h1: "encoder sample_ctx \<noteq> None" by (simp add: sample_ctx_def)
  have h2: "eFrameType sample_skip = videoFrameTypeSkip" by (simp add: sample_skip_def)
  from encode_skipped_frame [OF h1 h2 refl,
         of "[16, 16]" "[128]" "[128]" 640 320 320 "[9, 9, 9]" 3 33 1]
  show ?thesis
    using h1 h2 by simp
qed

text \<open>
  C9, as the code has it. In the copy loop, when no NAL byte length is negative, the
  exact total of the NAL byte lengths is at most \<open>INT_MAX\<close> and the upfront check has
  passed, the check made for each layer never triggers: the loop runs to its end
  and the final offset is the total. The buffer being at least as long as the
  declared capacity, no copy leaves its arrays, and no byte at or beyond the
  capacity is changed. The engine's reply stays within its arrays.
\<close>

theorem copy_loop_check_never_triggers:
  assumes "frame_ok info"
      and "lengths_nonneg info"
      and "frame_size info \<le> INT_MAX"
      and "sum_layers info 0 0 \<le> out_buf_size"
  shows "case copy_layers info out_buf_size 0 out_buf False 0 of
           Return_too_small b fault \<Rightarrow> False
         | Loop_done b offset fault \<Rightarrow>
             offset = sum_layers info 0 0 \<and> offset \<le> out_buf_size \<and>
             (out_buf_size \<le> int (length out_buf) \<longrightarrow>
                \<not> fault \<and> length b = length out_buf \<and>
                drop (nat out_buf_size) b = drop (nat out_buf_size) out_buf)"
proof -
  have total: "sum_layers info 0 0 = frame_size info"
    using assms(2,3) by (rule sum_layers_frame_size)
  have nonneg: "list_all layer_nonneg (layers_from info (nat 0))"
    using assms(2) by (simp add: lengths_nonneg_def produced_layers_def)
  have fits: "0 + sum_list (map layer_size_of (layers_from info (nat 0))) \<le> out_buf_size"
    using assms(4) by (simp add: total frame_size_def produced_layers_def)
  have small: "0 + sum_list (map layer_size_of (layers_from info (nat 0))) \<le> INT_MAX"
    using assms(3) by (simp add: frame_size_def produced_layers_def)
  from copy_layers_no_early_return [OF _ _ nonneg fits small, of out_buf False]
  obtain b f where b: "copy_layers info out_buf_size 0 out_buf False 0 =
      Loop_done b (frame_size info) f"
    by (auto simp add: frame_size_def produced_layers_def)
  have "\<not> f \<and> length b = length out_buf \<and>
        drop (nat out_buf_size) b = drop (nat out_buf_size) out_buf"
    if cap: "out_buf_size \<le> int (length out_buf)"
  proof -
    have le: "frame_size info \<le> out_buf_size"
      using assms(4) by (simp add: total)
    have b': "b = frame_bytes info @ drop (nat (frame_size info)) out_buf" and f: "\<not> f"
      using copy_layers_frame [OF assms(1,2) le assms(3) cap, of False] b by simp_all
    have len: "length (frame_bytes info) = nat (frame_size info)"
      using length_frame_bytes [OF assms(1,2)] by simp
    have n: "nat (frame_size info) \<le> nat out_buf_size" "nat out_buf_size \<le> length out_buf"
      using le cap by simp_all
    show ?thesis
      using n f by (simp add: b' len)
  qed
  then show ?thesis
    using assms(4) by (simp add: b total)
qed

theorem copy_loop_check_never_triggers_witness:
  "frame_ok sample_info \<and> lengths_nonneg sample_info \<and> frame_size sample_info \<le> INT_MAX \<and>
   sum_layers sample_info 0 0 \<le> 6 \<and>
   (6::int) \<le> int (length [9, 9, 9, 9, 9, 9, 9 :: u8]) \<and>
   (case copy_layers sample_info 6 0 [9, 9, 9, 9, 9, 9, 9] False 0 of
      Return_too_small b fault \<Rightarrow> False
    | Loop_done b offset fault \<Rightarrow>
        offset = 5 \<and> \<not> fault \<and> length b = 7 \<and> drop 6 b = [9])"
proof -
  have h1: "frame_ok sample_info" by code_simp
  have h2: "lengths_nonneg sample_info" by code_simp
  have size: "frame_size sample_info = 5" by code_simp
  have h3: "frame_size sample_info \<le> INT_MAX" by (simp add: size INT_MAX_def)
  have total: "sum_layers sample_info 0 0 = 5" by code_simp
  have h4: "sum_layers sample_info 0 0 \<le> 6" by (simp add: total)
  from copy_loop_check_never_triggers [OF h1 h2 h3 h4, of "[9, 9, 9, 9, 9, 9, 9]"]
  show ?thesis
    using h1 h2 h3 h4 by (simp add: total split: copy_end.splits)
qed

text \<open>
  C9 without these conditions fails in two ways. With layers of 2, 5 and -4 bytes
  and capacity 4 the upfront check passes on the total 3, and the check in the loop
  triggers at the second layer, after 2 bytes were copied. With layers of
  \<open>2 ^ 31 - 1\<close>, \<open>2 ^ 31 - 1\<close> and 7 bytes and capacity 7 the 32-bit total is 5, the
  upfront check passes, and the check in the loop triggers at the first layer.
\<close>

theorem copy_loop_check_can_trigger:
  "frame_ok sample_negative \<and> sum_layers sample_negative 0 0 = 3 \<and> (3::int) \<le> 4 \<and>
   copy_layers sample_negative 4 0 [9, 9, 9, 9, 9, 9, 9] False 0 =
     Return_too_small [1, 2, 9, 9, 9, 9, 9] False \<and>
   lengths_nonneg sample_wrapped_layers \<and>
   sum_layers sample_wrapped_layers 0 0 = 5 \<and> (5::int) \<le> 7 \<and>
   copy_layers sample_wrapped_layers 7 0 [9, 9, 9, 9, 9, 9, 9] False 0 =
     Return_too_small [9, 9, 9, 9, 9, 9, 9] False"
  by code_simp

text \<open>
  C10. An encode call that passes the pointer and engine checks leaves the handle's
  force flag at 0 whatever the engine answers: a failed encode, a skipped frame, a
  frame too large for the buffer and a packed frame alike.
\<close>

theorem encode_consumes_force_flag:
  assumes "encoder ctx \<noteq> None"
      and "r = h264_encoder_encode reply (Some ctx) (Some y) (Some u) (Some v)
                 stride_y stride_u stride_v (Some out_buf) out_buf_size (Some os) (Some kf)"
  shows "map_option force_idr (encoder_post (snd r)) = Some 0"
  using assms
  by (cases reply)
     (auto simp add: h264_encoder_encode_def Let_def split: copy_end.splits prod.splits)

theorem encode_consumes_force_flag_witness:
  "encoder (sample_ctx\<lparr>force_idr := 1\<rparr>) \<noteq> None \<and>
   map_option force_idr
     (encoder_post (snd (h264_encoder_encode (- 1, sample_skip)
        (Some (sample_ctx\<lparr>force_idr := 1\<rparr>))
        (Some [16, 16]) (Some [128]) (Some [128]) 640 320 320
        (Some [9, 9, 9]) 3 (Some 33) (Some 1)))) = Some 0 \<and>
   map_option force_idr
     (encoder_post (snd (h264_encoder_encode (cmResultSuccess, sample_skip)
        (Some (sample_ctx\<lparr>force_idr := 1\<rparr>))
        (Some [16, 16]) (Some [128]) (Some [128]) 640 320 320
        (Some [9, 9, 9]) 3 (Some 33) (Some 1)))) = Some 0"
proof -
  have h1: "encoder (sample_ctx\<lparr>force_idr := 1\<rparr>) \<noteq> None" by (simp add: sample_ctx_def)
  from encode_consumes_force_flag [OF h1 refl,
         of "(- 1, sample_skip)" "[16, 16]" "[128]" "[128]" 640 320 320 "[9, 9, 9]" 3 33 1]
       encode_consumes_force_flag [OF h1 refl,
         of "(cmResultSuccess, sample_skip)" "[16, 16]" "[128]" "[128]" 640 320 320
            "[9, 9, 9]" 3 33 1]
  show ?thesis
    using h1 by simp
qed

text \<open>
  An encode call that fails its pointer check returns before it reads the context:
  it changes nothing, the force flag included.
\<close>

lemma encode_invalid_param_changes_nothing:
  assumes "enc = None \<or> y = None \<or> u = None \<or> v = None \<or> out_buf = None \<or>
           out_size = None \<or> is_keyframe = None"
  shows "h264_encoder_encode reply enc y u v stride_y stride_u stride_v
           out_buf out_buf_size out_size is_keyframe =
         (H264_ERROR_INVALID_PARAM,
          \<lparr>encoder_post = enc, out_buf_post = out_buf,
           out_size_post = out_size, is_keyframe_post = is_keyframe,
             memory_fault_post = False\<rparr>)"
  using assms by (simp add: h264_encoder_encode_def)

text \<open>
  C4. The force flag is one-shot. After \<open>h264_encoder_force_idr\<close> on a handle with a
  live engine, the next encode call that gets past its checks asks the engine for
  \<open>ForceIntraFrame(true)\<close> before \<open>EncodeFrame\<close> and clears the flag; the encode call
  after that, with no new request, asks the engine for \<open>EncodeFrame\<close> only.
\<close>

theorem force_idr_one_shot:
  assumes "encoder ctx = Some e"
      and "h1 = snd (h264_encoder_force_idr (Some ctx))"
      and "post1 = snd (h264_encoder_encode reply1 h1 (Some y1) (Some u1) (Some v1)
                          sy1 su1 sv1 (Some buf1) cap1 (Some os1) (Some kf1))"
      and "post2 = snd (h264_encoder_encode reply2 (encoder_post post1)
                          (Some y2) (Some u2) (Some v2)
                          sy2 su2 sv2 (Some buf2) cap2 (Some os2) (Some kf2))"
  shows "map_option force_idr h1 = Some 1 \<and>
         encoder_post post1 =
           Some (ctx\<lparr>encoder := Some (e\<lparr>calls := calls e @
                         [ForceIntraFrame True,
                          EncodeFrame (source_picture ctx y1 u1 v1 sy1 su1 sv1)]\<rparr>),
                     force_idr := 0\<rparr>) \<and>
         encoder_post post2 =
           Some (ctx\<lparr>encoder := Some (e\<lparr>calls := calls e @
                         [ForceIntraFrame True,
                          EncodeFrame (source_picture ctx y1 u1 v1 sy1 su1 sv1),
                          EncodeFrame (source_picture ctx y2 u2 v2 sy2 su2 sv2)]\<rparr>),
                     force_idr := 0\<rparr>)"
proof -
  have h1: "h1 = Some (ctx\<lparr>force_idr := 1\<rparr>)"
    using assms(1,2) by (simp add: h264_encoder_force_idr_def)
  have p1: "encoder_post post1 =
           Some (ctx\<lparr>encoder := Some (e\<lparr>calls := calls e @
                         [ForceIntraFrame True,
                          EncodeFrame (source_picture ctx y1 u1 v1 sy1 su1 sv1)]\<rparr>),
                     force_idr := 0\<rparr>)"
    using assms(1)
    by (cases reply1)
       (auto simp add: assms(3) h1 h264_encoder_encode_def Let_def engine_do_def
          source_picture_def split: copy_end.splits prod.splits)
  have p2: "encoder_post post2 =
           Some (ctx\<lparr>encoder := Some (e\<lparr>calls := calls e @
                         [ForceIntraFrame True,
                          EncodeFrame (source_picture ctx y1 u1 v1 sy1 su1 sv1),
                          EncodeFrame (source_picture ctx y2 u2 v2 sy2 su2 sv2)]\<rparr>),
                     force_idr := 0\<rparr>)"
    by (cases reply2)
       (auto simp add: assms(4) p1 h264_encoder_encode_def Let_def engine_do_def
          source_picture_def split: copy_end.splits prod.splits)
  show ?thesis
    using h1 p1 p2 by simp
qed

theorem force_idr_one_shot_witness:
  "encoder sample_ctx = Some \<lparr>calls = []\<rparr> \<and>
   encoder_post (snd (h264_encoder_encode (cmResultSuccess, sample_info)
        (snd (h264_encoder_force_idr (Some sample_ctx)))
        (Some [16]) (Some [128]) (Some [128]) 640 320 320
        (Some [9, 9, 9, 9, 9, 9, 9]) 7 (Some 0) (Some 0))) =
     Some (sample_ctx\<lparr>encoder := Some \<lparr>calls =
             [ForceIntraFrame True,
              EncodeFrame (source_picture sample_ctx [16] [128] [128] 640 320 320)]\<rparr>,
           force_idr := 0\<rparr>) \<and>
   encoder_post (snd (h264_encoder_encode (cmResultSuccess, sample_info)
        (encoder_post (snd (h264_encoder_encode (cmResultSuccess, sample_info)
           (snd (h264_encoder_force_idr (Some sample_ctx)))
           (Some [16]) (Some [128]) (Some [128]) 640 320 320
           (Some [9, 9, 9, 9, 9, 9, 9]) 7 (Some 0) (Some 0))))
        (Some [17]) (Some [128]) (Some [128]) 640 320 320
        (Some [9, 9, 9, 9, 9, 9, 9]) 7 (Some 0) (Some 0))) =
     Some (sample_ctx\<lparr>encoder := Some \<lparr>calls =
             [ForceIntraFrame True,
              EncodeFrame (source_picture sample_ctx [16] [128] [128] 640 320 320),
              EncodeFrame (source_picture sample_ctx [17] [128] [128] 640 320 320)]\<rparr>,
           force_idr := 0\<rparr>)"
proof -
  have h1: "encoder sample_ctx = Some \<lparr>calls = []\<rparr>" by (simp add: sample_ctx_def)
  note w = force_idr_one_shot [OF h1 refl refl refl,
         of "(cmResultSuccess, sample_info)" "[16]" "[128]" "[128]" 640 320 320
            "[9, 9, 9, 9, 9, 9, 9]" 7 0 0
            "(cmResultSuccess, sample_info)" "[17]" "[128]" "[128]" 640 320 320
            "[9, 9, 9, 9, 9, 9, 9]" 7 0 0]
  from w [THEN conjunct2, THEN conjunct1] have w1: "encoder_post (snd (h264_encoder_encode (cmResultSuccess, sample_info)
        (snd (h264_encoder_force_idr (Some sample_ctx)))
        (Some [16]) (Some [128]) (Some [128]) 640 320 320
        (Some [9, 9, 9, 9, 9, 9, 9]) 7 (Some 0) (Some 0))) =
     Some (sample_ctx\<lparr>encoder := Some \<lparr>calls =
             [ForceIntraFrame True,
              EncodeFrame (source_picture sample_ctx [16] [128] [128] 640 320 320)]\<rparr>,
           force_idr := 0\<rparr>)"
    by simp
  from w [THEN conjunct2, THEN conjunct2] have w2: "encoder_post (snd (h264_encoder_encode (cmResultSuccess, sample_info)
        (encoder_post (snd (h264_encoder_encode (cmResultSuccess, sample_info)
           (snd (h264_encoder_force_idr (Some sample_ctx)))
           (Some [16]) (Some [128]) (Some [128]) 640 320 320
           (Some [9, 9, 9, 9, 9, 9, 9]) 7 (Some 0) (Some 0))))
        (Some [17]) (Some [128]) (Some [128]) 640 320 320
        (Some [9, 9, 9, 9, 9, 9, 9]) 7 (Some 0) (Some 0))) =
     Some (sample_ctx\<lparr>encoder := Some \<lparr>calls =
             [ForceIntraFrame True,
              EncodeFrame (source_picture sample_ctx [16] [128] [128] 640 320 320),
              EncodeFrame (source_picture sample_ctx [17] [128] [128] 640 320 320)]\<rparr>,
           force_idr := 0\<rparr>)"
    by simp
  show ?thesis
    by (intro conjI) (rule h1, rule w1, rule w2)
qed

section \<open>Properties of the lifecycle\<close>

text \<open>
  C3. When any of width, height, fps, bitrate and keyint is at most 0,
  \<open>h264_encoder_create\<close> returns the null handle and has made no resource call: the
  context is not allocated and no engine is created, whatever the environment would
  have answered.
\<close>

theorem create_rejects_nonpositive:
  assumes "width' \<le> 0 \<or> height' \<le> 0 \<or> fps' \<le> 0 \<or> bitrate' \<le> 0 \<or> keyint' \<le> 0"
  shows "h264_encoder_create env width' height' fps' bitrate' keyint' threads = (None, [])"
  using assms by (simp add: h264_encoder_create_def)

theorem create_rejects_nonpositive_witness:
  "((640::int) \<le> 0 \<or> (360::int) \<le> 0 \<or> (0::int) \<le> 0 \<or> (500000::int) \<le> 0 \<or> (60::int) \<le> 0) \<and>
   h264_encoder_create sample_env 640 360 0 500000 60 2 = (None, [])"
proof -
  have h: "(640::int) \<le> 0 \<or> (360::int) \<le> 0 \<or> (0::int) \<le> 0 \<or> (500000::int) \<le> 0 \<or> (60::int) \<le> 0"
    by simp
  from create_rejects_nonpositive [OF h, of sample_env 2]
  show ?thesis
    using h by simp
qed

text \<open>
  A successful \<open>h264_encoder_create\<close> has handed the derived parameters to the
  engine's \<open>InitializeExt\<close>, between \<open>GetDefaultParams\<close> and the data-format option.
\<close>

lemma create_initializes_with_derived_params:
  assumes "h264_encoder_create env width' height' fps' bitrate' keyint' threads = (Some ctx, rs)"
  shows "\<exists>e0. snd (WelsCreateSVCEncoder_reply env) = Some e0 \<and>
           encoder ctx = Some (e0\<lparr>calls := calls e0 @
             [GetDefaultParams,
              InitializeExt (derive_params (GetDefaultParams_reply env)
                               width' height' fps' bitrate' keyint' threads),
              SetOption_DATAFORMAT videoFormatI420]\<rparr>)"
  using assms
  by (auto simp add: h264_encoder_create_def Let_def engine_do_def split: if_splits)

text \<open>
  C7. In the derived parameters a positive \<open>threads\<close> is the engine's
  \<open>iMultipleThreadIdc\<close> unchanged, and a \<open>threads\<close> of 0 or less gives
  \<open>iMultipleThreadIdc = 1\<close>.
\<close>

theorem derive_params_threads:
  "(0 < threads \<longrightarrow>
      iMultipleThreadIdc (derive_params defaults width' height' fps' bitrate' keyint' threads)
        = threads) \<and>
   (threads \<le> 0 \<longrightarrow>
      iMultipleThreadIdc (derive_params defaults width' height' fps' bitrate' keyint' threads)
        = 1)"
  by (simp add: derive_params_def Let_def)

theorem derive_params_threads_witness:
  "iMultipleThreadIdc (derive_params sample_defaults 640 360 30 500000 60 4) = 4 \<and>
   iMultipleThreadIdc (derive_params sample_defaults 640 360 30 500000 60 0) = 1 \<and>
   iMultipleThreadIdc (derive_params sample_defaults 640 360 30 500000 60 (- 3)) = 1"
  using derive_params_threads [of 4 sample_defaults 640 360 30 500000 60]
        derive_params_threads [of 0 sample_defaults 640 360 30 500000 60]
        derive_params_threads [of "- 3" sample_defaults 640 360 30 500000 60]
  by simp

text \<open>
  C6, as the code has it. \<open>h264_encoder_force_idr\<close> fails with
  \<open>H264_ERROR_INVALID_PARAM\<close> when the handle is null and with
  \<open>H264_ERROR_NULL_ENCODER\<close> when the handle is present and its engine pointer is null,
  changing nothing; in every other case it sets the force flag to 1 and returns
  success.
\<close>

theorem force_idr_result:
  "(h = None \<longrightarrow> h264_encoder_force_idr h = (H264_ERROR_INVALID_PARAM, None)) \<and>
   (\<forall>ctx. h = Some ctx \<and> encoder ctx = None \<longrightarrow>
      h264_encoder_force_idr h = (H264_ERROR_NULL_ENCODER, Some ctx)) \<and>
   (\<forall>ctx. h = Some ctx \<and> encoder ctx \<noteq> None \<longrightarrow>
      h264_encoder_force_idr h = (H264_SUCCESS, Some (ctx\<lparr>force_idr := 1\<rparr>)))"
  by (auto simp add: h264_encoder_force_idr_def)

theorem force_idr_result_witness:
  "h264_encoder_force_idr None = (H264_ERROR_INVALID_PARAM, None) \<and>
   encoder (sample_ctx\<lparr>encoder := None\<rparr>) = None \<and>
   h264_encoder_force_idr (Some (sample_ctx\<lparr>encoder := None\<rparr>)) =
     (H264_ERROR_NULL_ENCODER, Some (sample_ctx\<lparr>encoder := None\<rparr>)) \<and>
   encoder sample_ctx \<noteq> None \<and>
   h264_encoder_force_idr (Some sample_ctx) = (H264_SUCCESS, Some (sample_ctx\<lparr>force_idr := 1\<rparr>))"
proof -
  have h1: "encoder (sample_ctx\<lparr>encoder := None\<rparr>) = None" by simp
  have h2: "encoder sample_ctx \<noteq> None" by (simp add: sample_ctx_def)
  from force_idr_result [of None]
       force_idr_result [of "Some (sample_ctx\<lparr>encoder := None\<rparr>)"]
       force_idr_result [of "Some sample_ctx"]
  show ?thesis
    using h1 h2 by simp
qed

text \<open>
  C6, as the specification words it, fails at the null handle: the code answers
  \<open>H264_ERROR_INVALID_PARAM\<close> there, not \<open>H264_ERROR_NULL_ENCODER\<close>.
\<close>

theorem force_idr_null_handle_not_null_encoder:
  "fst (h264_encoder_force_idr None) = H264_ERROR_INVALID_PARAM \<and>
   fst (h264_encoder_force_idr None) \<noteq> H264_ERROR_NULL_ENCODER"
  by (simp add: h264_encoder_force_idr_def)

text \<open>
  C8. On a handle with a live engine, any number \<open>n \<ge> 1\<close> of calls of
  \<open>h264_encoder_force_idr\<close> leaves the handle as one call does, with the force flag
  set, every one of the calls returns success, and the next encode call gives the
  same result and the same effects after \<open>n\<close> calls as after one.
\<close>

theorem force_idr_idempotent:
  assumes "encoder ctx \<noteq> None"
      and "1 \<le> n"
  shows "force_idr_times n (Some ctx) = snd (h264_encoder_force_idr (Some ctx)) \<and>
         force_idr_times n (Some ctx) = Some (ctx\<lparr>force_idr := 1\<rparr>) \<and>
         (\<forall>k. fst (h264_encoder_force_idr (force_idr_times k (Some ctx))) = H264_SUCCESS) \<and>
         h264_encoder_encode reply (force_idr_times n (Some ctx)) y u v
             stride_y stride_u stride_v out_buf out_buf_size out_size is_keyframe =
           h264_encoder_encode reply (snd (h264_encoder_force_idr (Some ctx))) y u v
             stride_y stride_u stride_v out_buf out_buf_size out_size is_keyframe"
proof -
  have once: "h264_encoder_force_idr (Some ctx) = (H264_SUCCESS, Some (ctx\<lparr>force_idr := 1\<rparr>))"
    using assms(1) by (auto simp add: h264_encoder_force_idr_def)
  have again: "h264_encoder_force_idr (Some (ctx\<lparr>force_idr := 1\<rparr>)) =
                 (H264_SUCCESS, Some (ctx\<lparr>force_idr := 1\<rparr>))"
    using assms(1) by (auto simp add: h264_encoder_force_idr_def)
  have stay: "force_idr_times k (Some (ctx\<lparr>force_idr := 1\<rparr>)) = Some (ctx\<lparr>force_idr := 1\<rparr>)" for k
    by (induction k) (simp_all add: again)
  have many: "force_idr_times (Suc k) (Some ctx) = Some (ctx\<lparr>force_idr := 1\<rparr>)" for k
    by (simp add: once stay)
  have n: "force_idr_times n (Some ctx) = Some (ctx\<lparr>force_idr := 1\<rparr>)"
    using assms(2) many [of "n - 1"] by simp
  have all: "fst (h264_encoder_force_idr (force_idr_times k (Some ctx))) = H264_SUCCESS" for k
  proof (cases k)
    case 0
    then show ?thesis by (simp add: once)
  next
    case (Suc j)
    then show ?thesis by (simp add: once stay again)
  qed
  show ?thesis
    using n all by (simp add: once)
qed

theorem force_idr_idempotent_witness:
  "encoder sample_ctx \<noteq> None \<and> (1::nat) \<le> 3 \<and>
   force_idr_times 3 (Some sample_ctx) = snd (h264_encoder_force_idr (Some sample_ctx)) \<and>
   force_idr_times 3 (Some sample_ctx) = Some (sample_ctx\<lparr>force_idr := 1\<rparr>) \<and>
   h264_encoder_encode (cmResultSuccess, sample_info) (force_idr_times 3 (Some sample_ctx))
       (Some [16]) (Some [128]) (Some [128]) 640 320 320
       (Some [9, 9, 9, 9, 9, 9, 9]) 7 (Some 0) (Some 0) =
     h264_encoder_encode (cmResultSuccess, sample_info)
       (snd (h264_encoder_force_idr (Some sample_ctx)))
       (Some [16]) (Some [128]) (Some [128]) 640 320 320
       (Some [9, 9, 9, 9, 9, 9, 9]) 7 (Some 0) (Some 0)"
proof -
  have h1: "encoder sample_ctx \<noteq> None" by (simp add: sample_ctx_def)
  have h2: "(1::nat) \<le> 3" by simp
  note w = force_idr_idempotent [OF h1 h2,
             of "(cmResultSuccess, sample_info)" "Some [16]" "Some [128]" "Some [128]"
                640 320 320 "Some [9, 9, 9, 9, 9, 9, 9]" 7 "Some 0" "Some 0"]
  show ?thesis
    using h1 h2 w by blast
qed

end
